theory Spec2Isabelle
  imports Main "HOL-Library.AList"
begin

section \<open>The environment: child processes, pipes and the clock\<close>

text \<open>
  \<^verbatim>\<open>subrunner.py\<close> drives the operating system through \<^verbatim>\<open>subprocess.Popen\<close>
  objects. The model keeps one \<open>popen\<close> record per spawned child in a store indexed by
  a handle, so that the registry entry, the drain thread and an orphaned child all refer
  to the same object. Time is a discrete clock in seconds; what a child does is fixed by
  the \<open>script\<close> it runs: the lines it writes, after how many seconds it exits on its own
  (if ever) and with which code, after how many seconds it exits once it has received
  SIGTERM (if it reacts at all), and how long SIGKILL takes to end it.
\<close>

datatype signal = SIGTERM | SIGKILL

datatype error = FileNotFoundError string | TimeoutExpired

record script =
  out_lines :: "string list"
  run_time :: "nat option"
  exit_code :: int
  term_time :: "nat option"
  kill_time :: nat

record popen =
  pid :: nat
  cmdline :: "string list"
  prog :: script
  stdout :: "string list"
  exit_at :: "(nat \<times> int) option"
  received :: "signal list"

text \<open>
  \<open>exit_at\<close> is the moment at which the child is gone and its return code, as far as
  the signals sent so far and its own run time decide it; \<open>poll\<close> compares it with
  the clock, as \<^verbatim>\<open>Popen.poll()\<close> asks the operating system.
\<close>

definition poll :: "nat \<Rightarrow> popen \<Rightarrow> int option" where
  "poll t p = (case exit_at p of
                 None \<Rightarrow> None
               | Some (te, rc) \<Rightarrow> if te \<le> t then Some rc else None)"

definition signal_exit :: "signal \<Rightarrow> nat \<Rightarrow> popen \<Rightarrow> (nat \<times> int) option" where
  "signal_exit sg t p = (case sg of
       SIGKILL \<Rightarrow> Some (t + kill_time (prog p), - 9)
     | SIGTERM \<Rightarrow> (case term_time (prog p) of
                     None \<Rightarrow> None
                   | Some d \<Rightarrow> Some (t + d, - 15)))"

definition earliest :: "(nat \<times> int) option \<Rightarrow> (nat \<times> int) option \<Rightarrow> (nat \<times> int) option" where
  "earliest a b = (case a of
       None \<Rightarrow> b
     | Some (ta, ra) \<Rightarrow> (case b of
           None \<Rightarrow> a
         | Some (tb, rb) \<Rightarrow> if ta \<le> tb then a else b))"

text \<open>\<^verbatim>\<open>Popen.send_signal\<close>: polls first and does nothing for a child that has exited.\<close>

definition send_signal :: "signal \<Rightarrow> nat \<Rightarrow> popen \<Rightarrow> popen" where
  "send_signal sg t p =
     (if poll t p \<noteq> None then p
      else p\<lparr>received := received p @ [sg],
             exit_at := earliest (exit_at p) (signal_exit sg t p)\<rparr>)"

section \<open>The runner's state\<close>

text \<open>
  A callable is an object with a truth value of its own: a plain function is truthy, an
  object that defines \<^verbatim>\<open>__call__\<close> together with \<^verbatim>\<open>__bool__\<close> or \<^verbatim>\<open>__len__\<close> may be
  falsy. \<open>'c\<close> is what tells callables apart. An \<open>action\<close> is one observable effect
  of a drain thread: a call of the callback with a line, or a line printed on the console.
\<close>

datatype 'c callable = Callable (truth: bool) (target: 'c)

datatype 'c action = Callback "'c callable" string | Print string

record 'c thread =
  th_process :: nat
  th_process_id :: string
  th_show_output :: bool
  th_callback :: "'c callable option"

record 'c proc_info =
  process :: nat
  thread :: "'c thread option"
  running :: bool

text \<open>
  \<open>processes\<close> is \<^verbatim>\<open>self.processes\<close>: a Python dict, which keeps insertion order, as
  an association list. \<open>AList.update\<close> replaces the value of a present key in place and
  appends an absent one, \<open>AList.delete\<close> is \<^verbatim>\<open>del\<close>, \<open>map_of\<close> is the lookup.
\<close>

record 'c world =
  path_exists :: "string \<Rightarrow> bool"
  program :: "string list \<Rightarrow> script"
  sys_executable :: string
  now :: nat
  next_pid :: nat
  ptable :: "nat \<Rightarrow> popen"
  processes :: "(string \<times> 'c proc_info) list"
  effects :: "'c action list"

definition signal_proc :: "signal \<Rightarrow> nat \<Rightarrow> 'c world \<Rightarrow> 'c world" where
  "signal_proc sg h w = w\<lparr>ptable := (ptable w)(h := send_signal sg (now w) (ptable w h))\<rparr>"

text \<open>
  \<^verbatim>\<open>Popen.wait(timeout)\<close>: with a timeout it returns the code of a child that is gone by
  then and raises \<^verbatim>\<open>TimeoutExpired\<close> otherwise, the clock having advanced; without one
  it blocks until the child is gone, forever (\<open>None\<close>) for a child that never exits.
\<close>

definition proc_wait :: "nat option \<Rightarrow> nat \<Rightarrow> 'c world \<Rightarrow> ((error + int) \<times> 'c world) option" where
  "proc_wait timeout h w = (case timeout of
       None \<Rightarrow> (case exit_at (ptable w h) of
                   None \<Rightarrow> None
                 | Some (te, rc) \<Rightarrow> Some (Inr rc, w\<lparr>now := max (now w) te\<rparr>))
     | Some d \<Rightarrow> (case exit_at (ptable w h) of
                   None \<Rightarrow> Some (Inl TimeoutExpired, w\<lparr>now := now w + d\<rparr>)
                 | Some (te, rc) \<Rightarrow>
                     if te \<le> now w + d then Some (Inr rc, w\<lparr>now := max (now w) te\<rparr>)
                     else Some (Inl TimeoutExpired, w\<lparr>now := now w + d\<rparr>)))"

text \<open>\<^verbatim>\<open>subprocess.Popen(cmd, ...)\<close>: a fresh child, running what the command line names.\<close>

definition Popen :: "string list \<Rightarrow> 'c world \<Rightarrow> nat \<times> 'c world" where
  "Popen cmd w =
     (let h = next_pid w;
          s = program w cmd;
          p = \<lparr>pid = h, cmdline = cmd, prog = s, stdout = out_lines s,
               exit_at = map_option (\<lambda>d. (now w + d, exit_code s)) (run_time s),
               received = []\<rparr>
      in (h, w\<lparr>next_pid := Suc h, ptable := (ptable w)(h := p)\<rparr>))"

section \<open>Formatting\<close>

text \<open>Python's \<^verbatim>\<open>str\<close> of a non-negative and of any integer, as f-strings apply it.\<close>

fun str_nat :: "nat \<Rightarrow> string" where
  "str_nat n = (if n < 10 then [''0123456789'' ! n]
                else str_nat (n div 10) @ [''0123456789'' ! (n mod 10)])"

declare str_nat.simps [simp del]

definition str_int :: "int \<Rightarrow> string" where
  "str_int i = (if i < 0 then CHR ''-'' # str_nat (nat (- i)) else str_nat (nat i))"

text \<open>\<^verbatim>\<open>line.rstrip('\n')\<close> removes every trailing newline character.\<close>

definition rstrip_nl :: "string \<Rightarrow> string" where
  "rstrip_nl s = rev (dropWhile (\<lambda>c. c = CHR 0x0A) (rev s))"

section \<open>ParallelRunner.run and its drain thread\<close>

text \<open>
  The truth value of \<^verbatim>\<open>callback\<close>, as \<^verbatim>\<open>if show_output and callback\<close> and
  \<^verbatim>\<open>elif callback\<close> test it: \<^verbatim>\<open>None\<close> is falsy, a callable has its own truth value.
\<close>

fun truthy :: "'c callable option \<Rightarrow> bool" where
  "truthy None = False"
| "truthy (Some cb) = truth cb"

text \<open>
  \<^verbatim>\<open>callback(output)\<close>. It is only reached where \<^verbatim>\<open>callback\<close> is truthy, so never
  with \<^verbatim>\<open>None\<close>.
\<close>

fun call :: "'c callable option \<Rightarrow> string \<Rightarrow> 'c action list" where
  "call (Some cb) s = [Callback cb s]"
| "call None s = []"

text \<open>The body of \<^verbatim>\<open>if line:\<close> in \<^verbatim>\<open>read_output\<close>, for one line read from the pipe.\<close>

definition dispatch :: "bool \<Rightarrow> 'c callable option \<Rightarrow> string \<Rightarrow> string \<Rightarrow> 'c action list" where
  "dispatch show_output callback process_id line =
     (let out = rstrip_nl line in
      if show_output \<and> truthy callback then call callback out
      else if show_output then [Print (''['' @ process_id @ '']: '' @ out)]
      else if truthy callback then call callback out
      else [])"

text \<open>
  The \<^verbatim>\<open>while True\<close> loop over what \<^verbatim>\<open>readline()\<close> returns while the pipe still holds
  lines; \<open>exited\<close> is \<^verbatim>\<open>process.poll() is not None\<close>. The result is the actions, the
  lines left in the pipe, and whether the loop was left by \<^verbatim>\<open>break\<close>.
\<close>

fun read_lines :: "bool \<Rightarrow> 'c callable option \<Rightarrow> string \<Rightarrow> bool \<Rightarrow> string list
                     \<Rightarrow> 'c action list \<times> string list \<times> bool" where
  "read_lines show_output callback process_id exited [] = ([], [], False)"
| "read_lines show_output callback process_id exited (line # rest) =
     (if line = [] \<and> exited then ([], rest, True)
      else let acts = (if line \<noteq> [] then dispatch show_output callback process_id line else []);
               (more, left, broke) = read_lines show_output callback process_id exited rest
           in (acts @ more, left, broke))"

definition mark_not_running :: "string \<Rightarrow> 'c world \<Rightarrow> 'c world" where
  "mark_not_running process_id w =
     (if map_of (processes w) process_id \<noteq> None
      then w\<lparr>processes := AList.map_entry process_id (\<lambda>i. i\<lparr>running := False\<rparr>) (processes w)\<rparr>
      else w)"

text \<open>
  The drain thread as far as the pipe holds lines: the state once they have been read and
  dispatched, and whether the loop was left. This much of \<^verbatim>\<open>read_output\<close> always
  happens, whether or not the child ever exits.
\<close>

definition drain_pipe :: "'c thread \<Rightarrow> 'c world \<Rightarrow> 'c world \<times> bool" where
  "drain_pipe th w =
     (let h = th_process th;
          p = ptable w h;
          (acts, left, broke) =
             read_lines (th_show_output th) (th_callback th) (th_process_id th)
               (poll (now w) p \<noteq> None) (stdout p)
      in (w\<lparr>ptable := (ptable w)(h := p\<lparr>stdout := left\<rparr>), effects := effects w @ acts\<rparr>,
          broke))"

text \<open>
  A drain thread run to its end. Once the pipe is empty \<^verbatim>\<open>readline()\<close> returns the empty
  string, and the loop spins until the child is gone: forever (\<open>None\<close>) if it never is.
\<close>

definition read_output :: "'c thread \<Rightarrow> 'c world \<Rightarrow> 'c world option" where
  "read_output th w =
     (let (w1, broke) = drain_pipe th w
      in if broke then Some (mark_not_running (th_process_id th) w1)
         else (case exit_at (ptable w (th_process th)) of
                 None \<Rightarrow> None
               | Some (te, rc) \<Rightarrow>
                   Some (mark_not_running (th_process_id th) (w1\<lparr>now := max (now w1) te\<rparr>))))"

text \<open>
  \<^verbatim>\<open>tag or f"proc_{process.pid}"\<close>: Python's \<^verbatim>\<open>or\<close> takes the right operand when the
  left one is falsy, which \<^verbatim>\<open>None\<close> and the empty string both are.
\<close>

definition tag_or_proc :: "string option \<Rightarrow> nat \<Rightarrow> string" where
  "tag_or_proc tag n =
     (case tag of
        None \<Rightarrow> ''proc_'' @ str_nat n
      | Some t \<Rightarrow> if t = [] then ''proc_'' @ str_nat n else t)"

definition command :: "'c world \<Rightarrow> string \<Rightarrow> string list option \<Rightarrow> string list" where
  "command w script_name args =
     [sys_executable w, script_name]
       @ (case args of None \<Rightarrow> [] | Some a \<Rightarrow> if a = [] then [] else a)"

definition run :: "string \<Rightarrow> string list option \<Rightarrow> bool \<Rightarrow> 'c callable option \<Rightarrow> bool
                   \<Rightarrow> string option \<Rightarrow> 'c world \<Rightarrow> ((error + string) \<times> 'c world) option" where
  "run script_name args show_output callback wait tag w =
     (if \<not> path_exists w script_name then Some (Inl (FileNotFoundError script_name), w)
      else
        let cmd = command w script_name args;
            (h, w1) = Popen cmd w;
            process_id = tag_or_proc tag (pid (ptable w1 h));
            w2 = w1\<lparr>processes :=
                      AList.update process_id \<lparr>process = h, thread = None, running = True\<rparr>
                        (processes w1)\<rparr>;
            th = \<lparr>th_process = h, th_process_id = process_id,
                  th_show_output = show_output, th_callback = callback\<rparr>;
            w3 = w2\<lparr>processes :=
                      AList.map_entry process_id (\<lambda>i. i\<lparr>thread := Some th\<rparr>) (processes w2)\<rparr>
        in if wait then
             (case proc_wait None h w3 of
                None \<Rightarrow> None
              | Some (r, w4) \<Rightarrow>
                  (case read_output th w4 of
                     None \<Rightarrow> None
                   | Some w5 \<Rightarrow> Some (Inr process_id, w5)))
           else Some (Inr process_id, w3))"

section \<open>ParallelRunner.stop, stop\_all, is\_running, wait\<close>

definition del_process :: "string \<Rightarrow> 'c world \<Rightarrow> 'c world" where
  "del_process process_id w = w\<lparr>processes := AList.delete process_id (processes w)\<rparr>"

definition stop :: "string \<Rightarrow> bool \<Rightarrow> 'c world \<Rightarrow> (bool \<times> 'c world) option" where
  "stop process_id force w =
     (case map_of (processes w) process_id of
        None \<Rightarrow> Some (False, w)
      | Some proc_info \<Rightarrow>
          let h = process proc_info in
          if poll (now w) (ptable w h) = None then
            (case proc_wait (Some 5) h (signal_proc (if force then SIGKILL else SIGTERM) h w) of
               None \<Rightarrow> None
             | Some (Inr rc, w1) \<Rightarrow> Some (True, del_process process_id w1)
             | Some (Inl e, w1) \<Rightarrow>
                 if force then
                   (case proc_wait None h (signal_proc SIGKILL h w1) of
                      None \<Rightarrow> None
                    | Some (r, w2) \<Rightarrow> Some (True, del_process process_id w2))
                 else Some (True, del_process process_id w1))
          else Some (True, del_process process_id w))"

fun stop_each :: "string list \<Rightarrow> bool \<Rightarrow> 'c world \<Rightarrow> 'c world option" where
  "stop_each [] force w = Some w"
| "stop_each (p # ids) force w =
     (case stop p force w of
        None \<Rightarrow> None
      | Some (r, w1) \<Rightarrow> stop_each ids force w1)"

definition stop_all :: "bool \<Rightarrow> 'c world \<Rightarrow> 'c world option" where
  "stop_all force w = (let ids = map fst (processes w) in stop_each ids force w)"

definition is_running :: "string \<Rightarrow> 'c world \<Rightarrow> bool" where
  "is_running process_id w =
     (case map_of (processes w) process_id of
        None \<Rightarrow> False
      | Some proc_info \<Rightarrow> poll (now w) (ptable w (process proc_info)) = None)"

definition wait :: "string \<Rightarrow> nat option \<Rightarrow> 'c world \<Rightarrow> (int option \<times> 'c world) option" where
  "wait process_id timeout w =
     (case map_of (processes w) process_id of
        None \<Rightarrow> Some (None, w)
      | Some proc_info \<Rightarrow>
          (case proc_wait timeout (process proc_info) w of
             None \<Rightarrow> None
           | Some (Inr rc, w1) \<Rightarrow> Some (Some rc, w1)
           | Some (Inl e, w1) \<Rightarrow> Some (None, w1)))"

section \<open>ParallelRunner.list\<close>

record status =
  st_pid :: nat
  st_running :: bool
  st_returncode :: "int option"
  st_alive :: bool

definition status_of :: "'c world \<Rightarrow> 'c proc_info \<Rightarrow> status" where
  "status_of w info =
     \<lparr>st_pid = pid (ptable w (process info)),
      st_running = (poll (now w) (ptable w (process info)) = None),
      st_returncode = poll (now w) (ptable w (process info)),
      st_alive = running info\<rparr>"

fun list_loop :: "'c world \<Rightarrow> (string \<times> 'c proc_info) list \<Rightarrow> (string \<times> status) list
                    \<Rightarrow> (string \<times> status) list" where
  "list_loop w [] result = result"
| "list_loop w ((p, info) # items) result =
     list_loop w items (AList.update p (status_of w info) result)"

definition list_processes :: "'c world \<Rightarrow> (string \<times> status) list" where
  "list_processes w = list_loop w (processes w) []"

text \<open>The module-level functions act on the singleton \<^verbatim>\<open>_runner\<close>, here the world.\<close>

definition kill :: "string \<Rightarrow> 'c world \<Rightarrow> (bool \<times> 'c world) option" where
  "kill p w = stop p True w"

definition kill_all :: "'c world \<Rightarrow> 'c world option" where
  "kill_all w = stop_all True w"

section \<open>main.py: the geometry of the overlay\<close>

definition right_offset :: int where
  "right_offset = 20"

text \<open>
  The argument of \<^verbatim>\<open>root.geometry\<close>, from the width of the screen and the pixel
  dimensions of the image.
\<close>

definition geometry :: "int \<Rightarrow> int \<Rightarrow> int \<Rightarrow> string" where
  "geometry screen_width img_width img_height =
     (let x = screen_width - img_width - right_offset
      in str_int img_width @ ''x'' @ str_int img_height @ ''+'' @ str_int x @ ''+'' @ str_int 0)"

text \<open>
  What the window manager makes of such a string: Tk's geometry syntax
  \<^verbatim>\<open>widthxheight+x+y\<close>, two unsigned decimal numbers and two offsets from the left and
  the top edge of the screen, each of which may itself be negative (\<^verbatim>\<open>+-5\<close>). Offsets
  from the right and the bottom edge (\<^verbatim>\<open>-x\<close>, \<^verbatim>\<open>-y\<close>) are not read here.
\<close>

definition is_digit :: "char \<Rightarrow> bool" where
  "is_digit c = (c \<in> set ''0123456789'')"

definition digit_val :: "char \<Rightarrow> nat" where
  "digit_val c = length (takeWhile (\<lambda>d. d \<noteq> c) ''0123456789'')"

definition number :: "string \<Rightarrow> nat" where
  "number ds = foldl (\<lambda>a c. 10 * a + digit_val c) 0 ds"

definition read_nat :: "string \<Rightarrow> (nat \<times> string) option" where
  "read_nat s =
     (let ds = takeWhile is_digit s
      in if ds = [] then None else Some (number ds, dropWhile is_digit s))"

definition read_int :: "string \<Rightarrow> (int \<times> string) option" where
  "read_int s =
     (case s of
        [] \<Rightarrow> None
      | c # r \<Rightarrow>
          if c = CHR ''-''
          then (case read_nat r of None \<Rightarrow> None | Some (n, t) \<Rightarrow> Some (- int n, t))
          else (case read_nat s of None \<Rightarrow> None | Some (n, t) \<Rightarrow> Some (int n, t)))"

record window =
  win_width :: int
  win_height :: int
  x_origin :: int
  y_origin :: int

fun expect :: "char \<Rightarrow> string \<Rightarrow> string option" where
  "expect c [] = None"
| "expect c (d # r) = (if d = c then Some r else None)"

definition wm_geometry :: "string \<Rightarrow> window option" where
  "wm_geometry s =
     (case read_nat s of None \<Rightarrow> None | Some (w, s1) \<Rightarrow>
      (case expect CHR ''x'' s1 of None \<Rightarrow> None | Some s2 \<Rightarrow>
       (case read_nat s2 of None \<Rightarrow> None | Some (h, s3) \<Rightarrow>
        (case expect CHR ''+'' s3 of None \<Rightarrow> None | Some s4 \<Rightarrow>
         (case read_int s4 of None \<Rightarrow> None | Some (x, s5) \<Rightarrow>
          (case expect CHR ''+'' s5 of None \<Rightarrow> None | Some s6 \<Rightarrow>
           (case read_int s6 of None \<Rightarrow> None | Some (y, s7) \<Rightarrow>
              if s7 = [] then Some \<lparr>win_width = int w, win_height = int h,
                                     x_origin = x, y_origin = y\<rparr>
              else None)))))))"

section \<open>Example states\<close>

text \<open>
  Three scripts: one that runs until told to stop and exits a second after SIGTERM, one
  that prints three lines and exits by itself after two seconds, and one that ignores
  SIGTERM and never exits on its own. \<open>fresh_world\<close> is the runner before any launch,
  on a machine where only \<^verbatim>\<open>limiter.py\<close>, \<^verbatim>\<open>oneshot.py\<close> and \<^verbatim>\<open>stubborn.py\<close>
  exist.
\<close>

definition polite_script :: script where
  "polite_script =
     \<lparr>out_lines = [''limiter up'' @ [CHR 0x0A], ''tick'' @ [CHR 0x0A]], run_time = None,
      exit_code = 0, term_time = Some 1, kill_time = 0\<rparr>"

definition oneshot_script :: script where
  "oneshot_script =
     \<lparr>out_lines = [''A'' @ [CHR 0x0A], ''B'' @ [CHR 0x0A], ''C''], run_time = Some 2,
      exit_code = 0, term_time = Some 0, kill_time = 0\<rparr>"

definition stubborn_script :: script where
  "stubborn_script =
     \<lparr>out_lines = [''ignoring you'' @ [CHR 0x0A]], run_time = None,
      exit_code = 0, term_time = None, kill_time = 0\<rparr>"

definition fresh_world :: "nat world" where
  "fresh_world =
     \<lparr>path_exists = (\<lambda>p. p = ''limiter.py'' \<or> p = ''oneshot.py'' \<or> p = ''stubborn.py''),
      program = (\<lambda>cmd. if cmd = [''python'', ''stubborn.py''] then stubborn_script
                        else if cmd = [''python'', ''oneshot.py''] then oneshot_script
                        else polite_script),
      sys_executable = ''python'',
      now = 0,
      next_pid = 100,
      ptable = (\<lambda>h. \<lparr>pid = h, cmdline = [], prog = polite_script, stdout = [],
                       exit_at = Some (0, 0), received = []\<rparr>),
      processes = [],
      effects = []\<rparr>"

text \<open>The state after \<^verbatim>\<open>run("limiter.py", tag="a")\<close> in \<open>fresh_world\<close>.\<close>

definition tracked_world :: "nat world" where
  "tracked_world =
     snd (the (run ''limiter.py'' None True None False (Some ''a'') fresh_world))"

text \<open>
  The state after \<^verbatim>\<open>run("stubborn.py", tag="s")\<close> in \<open>fresh_world\<close>, and the one after
  \<^verbatim>\<open>stop("s")\<close> there.
\<close>

definition stubborn_world :: "nat world" where
  "stubborn_world =
     snd (the (run ''stubborn.py'' None True None False (Some ''s'') fresh_world))"

definition stubborn_stopped :: "nat world" where
  "stubborn_stopped = snd (the (stop ''s'' False stubborn_world))"



text \<open>
  The state after \<^verbatim>\<open>run("oneshot.py", show_output=False, callback=f)\<close> in
  \<open>fresh_world\<close>, \<open>f\<close> being the truthy callable number 7.
\<close>

definition oneshot_world :: "nat world" where
  "oneshot_world =
     snd (the (run ''oneshot.py'' None False (Some (Callable True 7)) False None fresh_world))"


section \<open>The registry's invariant\<close>

text \<open>
  The keys of a dict are distinct, and every record holds the handle of a child that
  \<open>Popen\<close> has created already.
\<close>

definition registry_ok :: "'c world \<Rightarrow> bool" where
  "registry_ok w =
     (distinct (map fst (processes w)) \<and>
      (\<forall>e \<in> set (processes w). process (snd e) < next_pid w))"

section \<open>Facts about the example states\<close>

lemma tracked_world_processes:
  "processes tracked_world =
     [(''a'', \<lparr>process = 100,
               thread = Some \<lparr>th_process = 100, th_process_id = ''a'',
                               th_show_output = True, th_callback = None\<rparr>,
               running = True\<rparr>)]"
  by (simp add: tracked_world_def run_def fresh_world_def Popen_def command_def tag_or_proc_def Let_def)

section \<open>What stop changes\<close>

lemmas stop_defs = stop_def Let_def del_process_def proc_wait_def signal_proc_def
  send_signal_def earliest_def signal_exit_def poll_def

lemma stop_unknown:
  "map_of (processes w) i = None \<Longrightarrow> stop i f w = Some (False, w)"
  by (simp add: stop_def)

lemma stop_tracked:
  assumes "map_of (processes w) i = Some info"
  shows "\<exists>w'. stop i f w = Some (True, w') \<and> processes w' = AList.delete i (processes w)
          \<and> next_pid w' = next_pid w \<and> now w \<le> now w' \<and> effects w' = effects w
          \<and> (\<forall>h. h \<noteq> process info \<longrightarrow> ptable w' h = ptable w h)"
  using assms
  by (simp add: stop_defs split: option.splits sum.splits prod.splits if_splits)

lemma stubborn_world_facts:
  "processes stubborn_world =
     [(''s'', \<lparr>process = 100,
               thread = Some \<lparr>th_process = 100, th_process_id = ''s'',
                               th_show_output = True, th_callback = None\<rparr>,
               running = True\<rparr>)]"
  "now stubborn_world = 0"
  "ptable stubborn_world 100 =
     \<lparr>pid = 100, cmdline = [''python'', ''stubborn.py''], prog = stubborn_script,
      stdout = out_lines stubborn_script, exit_at = None, received = []\<rparr>"
  by (simp_all add: stubborn_world_def run_def fresh_world_def Popen_def command_def
      tag_or_proc_def stubborn_script_def Let_def)

lemma stubborn_stop:
  "stop ''s'' False stubborn_world = Some (True, stubborn_stopped)"
  by (simp add: stubborn_stopped_def stop_defs stubborn_world_facts stubborn_script_def)

lemma stubborn_stopped_facts:
  "processes stubborn_stopped = []"
  "now stubborn_stopped = 5"
  "ptable stubborn_stopped 100 =
     \<lparr>pid = 100, cmdline = [''python'', ''stubborn.py''], prog = stubborn_script,
      stdout = out_lines stubborn_script, exit_at = None, received = [SIGTERM]\<rparr>"
  by (simp_all add: stubborn_stopped_def stop_defs stubborn_world_facts stubborn_script_def)








section \<open>What run changes\<close>

lemma keys_map_entry [simp]: "map fst (AList.map_entry k f xs) = map fst xs"
  by (induction xs) auto

lemma processes_mark_not_running:
  "map fst (processes (mark_not_running i w)) = map fst (processes w) \<and>
   map_of (processes (mark_not_running i w)) =
     (\<lambda>j. if j = i then map_option (\<lambda>x. x\<lparr>running := False\<rparr>) (map_of (processes w) i)
          else map_of (processes w) j) \<and>
   ptable (mark_not_running i w) = ptable w \<and> next_pid (mark_not_running i w) = next_pid w \<and>
   now (mark_not_running i w) = now w \<and> effects (mark_not_running i w) = effects w"
  by (auto simp: mark_not_running_def map_of_map_entry fun_eq_iff split: option.splits)

lemma read_output_frame:
  assumes "read_output th w = Some w'"
  shows "map fst (processes w') = map fst (processes w) \<and>
         map_of (processes w') =
           (\<lambda>j. if j = th_process_id th
                then map_option (\<lambda>x. x\<lparr>running := False\<rparr>) (map_of (processes w) j)
                else map_of (processes w) j) \<and>
         next_pid w' = next_pid w \<and>
         (\<forall>h. h \<noteq> th_process th \<longrightarrow> ptable w' h = ptable w h) \<and>
         ptable w' (th_process th) = (ptable w (th_process th))\<lparr>stdout := stdout (ptable w' (th_process th))\<rparr>"
  using assms
  by (auto simp: read_output_def drain_pipe_def Let_def processes_mark_not_running fun_eq_iff
      split: prod.splits if_splits option.splits)


lemma proc_wait_frame:
  "proc_wait t h w = Some (r, w') \<Longrightarrow>
     processes w' = processes w \<and> ptable w' = ptable w \<and> next_pid w' = next_pid w \<and>
     effects w' = effects w \<and> now w \<le> now w'"
  by (auto simp: proc_wait_def split: option.splits if_splits)

lemma run_nowait_result:
  assumes "path_exists w s" and "run s a so cb False tag w = Some (r, w')"
  shows "r = Inr (tag_or_proc tag (next_pid w)) \<and>
         map_of (processes w') =
           (map_of (processes w))(tag_or_proc tag (next_pid w) \<mapsto>
              \<lparr>process = next_pid w, thread = Some (\<lparr>th_process = next_pid w, th_process_id = tag_or_proc tag (next_pid w), th_show_output = so, th_callback = cb\<rparr>),
               running = True\<rparr>) \<and>
         map fst (processes w') =
           (if tag_or_proc tag (next_pid w) \<in> set (map fst (processes w)) then map fst (processes w)
            else map fst (processes w) @ [tag_or_proc tag (next_pid w)]) \<and>
         next_pid w' = Suc (next_pid w) \<and>
         (\<forall>h. h \<noteq> next_pid w \<longrightarrow> ptable w' h = ptable w h) \<and>
         pid (ptable w' (next_pid w)) = next_pid w \<and>
         received (ptable w' (next_pid w)) = []"
  using assms
  by (force simp: run_def Popen_def Let_def tag_or_proc_def update_conv'
      map_of_map_entry update_keys fun_eq_iff split: option.splits)

lemma run_wait_decompose:
  assumes "path_exists w s" and "run s a so cb True tag w = Some (r, w')"
  shows "\<exists>w3 x w4. run s a so cb False tag w = Some (r, w3) \<and>
           proc_wait None (next_pid w) w3 = Some (x, w4) \<and>
           read_output (\<lparr>th_process = next_pid w, th_process_id = tag_or_proc tag (next_pid w), th_show_output = so, th_callback = cb\<rparr>) w4 = Some w'"
  using assms
  by (auto simp: run_def Popen_def Let_def tag_or_proc_def
      split: option.splits prod.splits)

lemma run_result:
  assumes "path_exists w s" and "run s a so cb wt tag w = Some (r, w')"
  shows "r = Inr (tag_or_proc tag (next_pid w)) \<and>
         map_of (processes w') =
           (map_of (processes w))(tag_or_proc tag (next_pid w) \<mapsto>
              \<lparr>process = next_pid w, thread = Some (\<lparr>th_process = next_pid w, th_process_id = tag_or_proc tag (next_pid w), th_show_output = so, th_callback = cb\<rparr>),
               running = (\<not> wt)\<rparr>) \<and>
         map fst (processes w') =
           (if tag_or_proc tag (next_pid w) \<in> set (map fst (processes w)) then map fst (processes w)
            else map fst (processes w) @ [tag_or_proc tag (next_pid w)]) \<and>
         next_pid w' = Suc (next_pid w) \<and>
         (\<forall>h. h \<noteq> next_pid w \<longrightarrow> ptable w' h = ptable w h) \<and>
         pid (ptable w' (next_pid w)) = next_pid w \<and>
         received (ptable w' (next_pid w)) = []"
proof (cases wt)
  case False
  with run_nowait_result [OF assms(1), of a so cb tag r w'] assms(2) show ?thesis
    by simp
next
  case True
  with run_wait_decompose [OF assms(1), of a so cb tag r w'] assms(2) obtain w3 x w4 where
    a: "run s a so cb False tag w = Some (r, w3)" and
    b: "proc_wait None (next_pid w) w3 = Some (x, w4)" and
    c: "read_output (\<lparr>th_process = next_pid w, th_process_id = tag_or_proc tag (next_pid w), th_show_output = so, th_callback = cb\<rparr>) w4 = Some w'"
    by auto
  note A = run_nowait_result [OF assms(1) a]
  note B = proc_wait_frame [OF b]
  note C = read_output_frame [OF c]
  have [simp]: "th_process_id (\<lparr>th_process = next_pid w, th_process_id = tag_or_proc tag (next_pid w), th_show_output = so, th_callback = cb\<rparr>) = tag_or_proc tag (next_pid w)"
    "th_process (\<lparr>th_process = next_pid w, th_process_id = tag_or_proc tag (next_pid w), th_show_output = so, th_callback = cb\<rparr>) = next_pid w"
    by (simp_all add:)
  have 1: "map_of (processes w') =
           (map_of (processes w))(tag_or_proc tag (next_pid w) \<mapsto>
              \<lparr>process = next_pid w, thread = Some (\<lparr>th_process = next_pid w, th_process_id = tag_or_proc tag (next_pid w), th_show_output = so, th_callback = cb\<rparr>),
               running = (\<not> wt)\<rparr>)"
    using A B C True by (auto simp: fun_eq_iff)
  have 2: "map fst (processes w') =
           (if tag_or_proc tag (next_pid w) \<in> set (map fst (processes w)) then map fst (processes w)
            else map fst (processes w) @ [tag_or_proc tag (next_pid w)])"
    using A B C by simp
  have 3: "\<forall>h. h \<noteq> next_pid w \<longrightarrow> ptable w' h = ptable w h"
    using A B C by simp
  have 4: "pid (ptable w' (next_pid w)) = next_pid w \<and> received (ptable w' (next_pid w)) = []"
  proof -
    from C have "ptable w' (next_pid w) = (ptable w4 (next_pid w))\<lparr>stdout := stdout (ptable w' (next_pid w))\<rparr>"
      by simp
    then have "pid (ptable w' (next_pid w)) = pid (ptable w4 (next_pid w)) \<and>
               received (ptable w' (next_pid w)) = received (ptable w4 (next_pid w))"
      by (metis popen.select_convs(1) popen.select_convs(6) popen.surjective popen.update_convs(4))
    with A B show ?thesis by simp
  qed
  from A B C 1 2 3 4 show ?thesis by simp
qed

lemma read_lines_nonempty:
  "[] \<notin> set ls \<Longrightarrow>
     read_lines so cb i ex ls = (concat (map (dispatch so cb i) ls), [], False)"
  by (induction ls) auto

lemma read_output_returns:
  "exit_at (ptable w (th_process th)) \<noteq> None \<Longrightarrow> \<exists>w'. read_output th w = Some w'"
  by (auto simp: read_output_def drain_pipe_def Let_def split: prod.splits)

lemma run_returns:
  assumes "path_exists w s" and "wt \<longrightarrow> run_time (program w (command w s a)) \<noteq> None"
  shows "\<exists>w'. run s a so cb wt tag w = Some (Inr (tag_or_proc tag (next_pid w)), w')"
proof (cases wt)
  case False
  with assms(1) show ?thesis
    by (simp add: run_def Popen_def Let_def)
next
  case True
  with assms(2) obtain d where d: "run_time (program w (command w s a)) = Some d"
    by auto
  define th :: "'a thread" where "th = \<lparr>th_process = next_pid w, th_process_id = tag_or_proc tag (next_pid w),
        th_show_output = so, th_callback = cb\<rparr>"
  obtain w3 where a: "run s a so cb False tag w = Some (Inr (tag_or_proc tag (next_pid w)), w3)"
    and e: "exit_at (ptable w3 (next_pid w)) \<noteq> None"
    using assms(1) d by (simp add: run_def Popen_def Let_def)
  then obtain w4 x where b: "proc_wait None (next_pid w) w3 = Some (x, w4)"
    by (auto simp: proc_wait_def)
  from proc_wait_frame [OF b] e have "exit_at (ptable w4 (th_process th)) \<noteq> None"
    by (simp add: th_def)
  from read_output_returns [OF this] obtain w5 where c: "read_output th w4 = Some w5"
    by blast
  have "run s a so cb True tag w = Some (Inr (tag_or_proc tag (next_pid w)), w5)"
    using assms(1) a b c
    by (simp add: run_def Popen_def Let_def th_def)
  with True show ?thesis by simp
qed


lemma registry_ok_run:
  assumes "run s a so cb wt tag w = Some (r, w')" and "registry_ok w"
  shows "registry_ok w'"
proof (cases "path_exists w s")
  case False
  with assms show ?thesis by (simp add: run_def)
next
  case True
  note R = run_result [OF True assms(1)]
  from assms(2) have d: "distinct (map fst (processes w))"
    by (simp add: registry_ok_def)
  from R d have d': "distinct (map fst (processes w'))"
    by (auto split: if_splits)
  have "process (snd e) < next_pid w'" if e: "e \<in> set (processes w')" for e
  proof -
    obtain k v where kv: "e = (k, v)" by (cases e)
    with e d' have m: "map_of (processes w') k = Some v" by simp
    show ?thesis
    proof (cases "k = tag_or_proc tag (next_pid w)")
      case True
      with m R kv show ?thesis by auto
    next
      case False
      with m R have "map_of (processes w) k = Some v" by simp
      then have "(k, v) \<in> set (processes w)" by (rule map_of_SomeD)
      with assms(2) R kv show ?thesis
        by (fastforce simp: registry_ok_def)
    qed
  qed
  with d' show ?thesis by (simp add: registry_ok_def)
qed

section \<open>What list reports\<close>

lemma update_absent: "k \<notin> fst ` set al \<Longrightarrow> AList.update k v al = al @ [(k, v)]"
  by (induction al) auto

lemma list_loop_distinct:
  "distinct (map fst items) \<Longrightarrow> fst ` set acc \<inter> fst ` set items = {} \<Longrightarrow>
     list_loop w items acc = acc @ map (\<lambda>e. (fst e, status_of w (snd e))) items"
proof (induction items arbitrary: acc)
  case Nil
  show ?case by simp
next
  case (Cons e items)
  obtain k info where e: "e = (k, info)" by (cases e)
  from Cons.prems e have k: "k \<notin> fst ` set acc" by auto
  have "fst ` set (acc @ [(k, status_of w info)]) \<inter> fst ` set items = {}"
    using Cons.prems e by auto
  with Cons.IH [of "acc @ [(k, status_of w info)]"] Cons.prems e k show ?case
    by (simp add: update_absent)
qed

lemma list_processes_distinct:
  "distinct (map fst (processes w)) \<Longrightarrow>
     list_processes w = map (\<lambda>e. (fst e, status_of w (snd e))) (processes w)"
  by (simp add: list_processes_def list_loop_distinct)

lemma filter_key_distinct:
  "distinct (map fst xs) \<Longrightarrow> map_of xs k = Some v \<Longrightarrow> filter (\<lambda>e. fst e = k) xs = [(k, v)]"
proof (induction xs)
  case Nil
  then show ?case by simp
next
  case (Cons e xs)
  show ?case
  proof (cases "fst e = k")
    case True
    from Cons.prems(1) have "fst e \<notin> fst ` set xs" by simp
    with True have "\<forall>x \<in> set xs. fst x \<noteq> k" by blast
    then have "filter (\<lambda>e. fst e = k) xs = []" by (simp add: filter_empty_conv)
    with True Cons.prems show ?thesis by (cases e) auto
  next
    case False
    with Cons show ?thesis by (cases e) auto
  qed
qed

section \<open>More facts about the example states\<close>

lemma str_nat_100: "str_nat 100 = ''100''"
  by (simp add: str_nat.simps)

lemma str_nat_101: "str_nat 101 = ''101''"
  by (simp add: str_nat.simps)

lemma registry_ok_fresh: "registry_ok fresh_world"
  by (simp add: registry_ok_def fresh_world_def)

lemma tracked_world_run:
  "run ''limiter.py'' None True None False (Some ''a'') fresh_world = Some (Inr ''a'', tracked_world)"
  by (simp add: tracked_world_def run_def fresh_world_def tag_or_proc_def Let_def Popen_def)

lemma registry_ok_tracked: "registry_ok tracked_world"
  using registry_ok_run [OF tracked_world_run registry_ok_fresh] .

lemma tracked_world_facts:
  "next_pid tracked_world = 101"
  "now tracked_world = 0"
  "path_exists tracked_world = path_exists fresh_world"
  "program tracked_world = program fresh_world"
  "sys_executable tracked_world = ''python''"
  "ptable tracked_world 100 =
     \<lparr>pid = 100, cmdline = [''python'', ''limiter.py''], prog = polite_script,
      stdout = out_lines polite_script, exit_at = None, received = []\<rparr>"
  by (simp_all add: tracked_world_def run_def fresh_world_def Popen_def command_def
      tag_or_proc_def polite_script_def Let_def)

lemma oneshot_world_facts:
  "processes oneshot_world =
     [(''proc_100'', \<lparr>process = 100,
               thread = Some \<lparr>th_process = 100, th_process_id = ''proc_100'',
                               th_show_output = False, th_callback = Some (Callable True 7)\<rparr>,
               running = True\<rparr>)]"
  "now oneshot_world = 0"
  "effects oneshot_world = []"
  "ptable oneshot_world 100 =
     \<lparr>pid = 100, cmdline = [''python'', ''oneshot.py''], prog = oneshot_script,
      stdout = [''A'' @ [CHR 0x0A], ''B'' @ [CHR 0x0A], ''C''], exit_at = Some (2, 0), received = []\<rparr>"
  by (simp_all add: oneshot_world_def run_def fresh_world_def Popen_def command_def
      tag_or_proc_def oneshot_script_def str_nat_100 Let_def)

section \<open>What stop leaves alone\<close>



section \<open>Facts about the states with two launches\<close>









section \<open>Lines and their dispatch\<close>

lemma rstrip_nl_line:
  "CHR 0x0A \<notin> set s \<Longrightarrow> rstrip_nl (s @ [CHR 0x0A]) = s \<and> rstrip_nl s = s"
  by (cases s rule: rev_cases) (auto simp: rstrip_nl_def)

lemma effects_mark_not_running [simp]: "effects (mark_not_running i w) = effects w"
  by (simp add: mark_not_running_def)

lemma drain_pipe_nonempty:
  "[] \<notin> set (stdout (ptable w (th_process th))) \<Longrightarrow>
     drain_pipe th w =
       (w\<lparr>ptable := (ptable w)(th_process th := (ptable w (th_process th))\<lparr>stdout := []\<rparr>),
          effects := effects w @
            concat (map (dispatch (th_show_output th) (th_callback th) (th_process_id th))
                      (stdout (ptable w (th_process th))))\<rparr>,
        False)"
  by (simp add: drain_pipe_def Let_def read_lines_nonempty)

lemma read_output_effects:
  "read_output th w = Some w' \<Longrightarrow> effects w' = effects (fst (drain_pipe th w))"
  by (auto simp: read_output_def Let_def split: prod.splits if_splits option.splits)

lemma tracked_world_pipe:
  "stdout (ptable tracked_world 100) = [''limiter up'' @ [CHR 0x0A], ''tick'' @ [CHR 0x0A]]"
  "exit_at (ptable tracked_world 100) = None"
  "effects tracked_world = []"
  by (simp_all add: tracked_world_def run_def fresh_world_def Popen_def command_def
      tag_or_proc_def polite_script_def Let_def)

section \<open>Decimal numbers written and read\<close>

lemma digit_char:
  assumes "d < 10"
  shows "is_digit (''0123456789'' ! d) \<and> digit_val (''0123456789'' ! d) = d"
proof -
  from assms have "d = 0 \<or> d = 1 \<or> d = 2 \<or> d = 3 \<or> d = 4 \<or> d = 5 \<or> d = 6 \<or> d = 7 \<or> d = 8 \<or> d = 9"
    by arith
  then show ?thesis
    by (elim disjE) (simp_all add: is_digit_def digit_val_def)
qed

lemma str_nat_digits: "c \<in> set (str_nat n) \<Longrightarrow> is_digit c"
proof (induction n arbitrary: c rule: str_nat.induct)
  case (1 n)
  show ?case
  proof (cases "n < 10")
    case True
    with "1.prems" digit_char [of n] show ?thesis
      by (simp add: str_nat.simps [of n])
  next
    case False
    with "1.prems" "1.IH" digit_char [of "n mod 10"] show ?thesis
      by (auto simp: str_nat.simps [of n])
  qed
qed

lemma str_nat_nonempty: "str_nat n \<noteq> []"
  by (simp add: str_nat.simps [of n])

lemma number_snoc: "number (ds @ [c]) = 10 * number ds + digit_val c"
  by (simp add: number_def)

lemma number_str_nat: "number (str_nat n) = n"
proof (induction n rule: str_nat.induct)
  case (1 n)
  show ?case
  proof (cases "n < 10")
    case True
    with digit_char [of n] show ?thesis
      by (simp add: str_nat.simps [of n] number_def)
  next
    case False
    with "1.IH" digit_char [of "n mod 10"] show ?thesis
      by (simp add: str_nat.simps [of n] number_snoc)
  qed
qed

lemma read_nat_str_nat:
  "\<not> is_digit c \<Longrightarrow> read_nat (str_nat n @ c # r) = Some (n, c # r)"
  "read_nat (str_nat n) = Some (n, [])"
proof -
  have all: "\<And>x. x \<in> set (str_nat n) \<Longrightarrow> is_digit x"
    by (rule str_nat_digits)
  have t: "takeWhile is_digit (str_nat n) = str_nat n" "dropWhile is_digit (str_nat n) = []"
    using all by simp_all
  show "read_nat (str_nat n) = Some (n, [])"
    by (simp add: read_nat_def t str_nat_nonempty number_str_nat)
  assume "\<not> is_digit c"
  then have "takeWhile is_digit (str_nat n @ c # r) = str_nat n"
    "dropWhile is_digit (str_nat n @ c # r) = c # r"
    using all by simp_all
  then show "read_nat (str_nat n @ c # r) = Some (n, c # r)"
    by (simp add: read_nat_def str_nat_nonempty number_str_nat)
qed

lemma minus_no_digit: "\<not> is_digit CHR ''-''" "\<not> is_digit CHR ''x''" "\<not> is_digit CHR ''+''"
  by (simp_all add: is_digit_def)

lemma str_nat_head: "\<exists>d ds. str_nat n = d # ds \<and> d \<noteq> CHR ''-''"
proof -
  obtain d ds where e: "str_nat n = d # ds"
    using str_nat_nonempty [of n] by (cases "str_nat n") auto
  then have "is_digit d"
    using str_nat_digits [of d n] by simp
  with minus_no_digit e show ?thesis
    by auto
qed

lemma read_int_str_int:
  "\<not> is_digit c \<Longrightarrow> read_int (str_int i @ c # r) = Some (i, c # r)"
  "read_int (str_int i) = Some (i, [])"
proof -
  obtain d ds where e: "str_nat (nat i) = d # ds" and d: "d \<noteq> CHR ''-''"
    using str_nat_head by blast
  show "read_int (str_int i) = Some (i, [])"
  proof (cases "i < 0")
    case True
    then show ?thesis
      by (simp add: str_int_def read_int_def read_nat_str_nat)
  next
    case False
    with e d read_nat_str_nat(2) [of "nat i"] show ?thesis
      by (simp add: str_int_def read_int_def)
  qed
  assume c: "\<not> is_digit c"
  show "read_int (str_int i @ c # r) = Some (i, c # r)"
  proof (cases "i < 0")
    case True
    with c show ?thesis
      by (simp add: str_int_def read_int_def read_nat_str_nat)
  next
    case False
    with e d read_nat_str_nat(1) [OF c, of "nat i" r] show ?thesis
      by (simp add: str_int_def read_int_def)
  qed
qed

lemma str_nat_0: "str_nat 0 = ''0''"
  by (simp add: str_nat.simps)

section \<open>Unknown identifiers\<close>

text \<open>
  C4. For an identifier that is not in the registry, Stop returns false, IsRunning returns
  false and Wait returns the absent result (whatever the timeout); each of them returns,
  none raises, and Stop and Wait leave the whole state, the registry included, as it was
  (IsRunning only reads it).
\<close>

theorem unknown_identifier_is_noop:
  "map_of (processes w) process_id = None \<Longrightarrow>
     stop process_id force w = Some (False, w) \<and>
     is_running process_id w = False \<and>
     wait process_id timeout w = Some (None, w)"
  by (simp add: stop_def is_running_def wait_def)

text \<open>The witness: an unknown identifier beside a tracked one.\<close>

theorem unknown_identifier_is_noop_witness:
  "map_of (processes tracked_world) ''ghost'' = None \<and>
   stop ''ghost'' False tracked_world = Some (False, tracked_world) \<and>
   is_running ''ghost'' tracked_world = False \<and>
   wait ''ghost'' (Some 3) tracked_world = Some (None, tracked_world) \<and>
   map fst (processes tracked_world) = [''a'']"
proof -
  have h: "map_of (processes tracked_world) ''ghost'' = None"
    by (simp add: tracked_world_processes)
  show ?thesis
    using unknown_identifier_is_noop [OF h, of False "Some 3"] h
    by (simp add: tracked_world_processes)
qed

section \<open>Kill and KillAll\<close>

text \<open>
  C9. Kill(processId) gives the result and the state that Stop(processId, force = true)
  gives, and KillAll() gives what StopAll(force = true) gives.
\<close>

theorem kill_is_forced_stop:
  "kill process_id w = stop process_id True w \<and> kill_all w = stop_all True w"
  by (simp add: kill_def kill_all_def)

section \<open>Launching a script that does not exist\<close>

text \<open>
  C3. Launch with a script path that does not exist fails with the NotFound error
  (\<^verbatim>\<open>FileNotFoundError\<close>), whatever the other arguments; no child is spawned and the
  registry is unchanged: the whole state is the one before the call.
\<close>

theorem run_missing_script:
  "\<not> path_exists w script_name \<Longrightarrow>
     run script_name args show_output callback wait_flag tag w
       = Some (Inl (FileNotFoundError script_name), w)"
  by (simp add: run_def)

theorem run_missing_script_witness:
  "\<not> path_exists fresh_world ''nothing.py'' \<and>
   run ''nothing.py'' (Some [''-v'']) True None True (Some ''n'') fresh_world
     = Some (Inl (FileNotFoundError ''nothing.py''), fresh_world)"
proof -
  have h: "\<not> path_exists fresh_world ''nothing.py''"
    by (simp add: fresh_world_def)
  show ?thesis
    using run_missing_script [OF h, of "Some [''-v'']" True None True "Some ''n''"] h by simp
qed

section \<open>Stopping twice\<close>

text \<open>
  C5. For a tracked identifier, Stop returns true the first time, whatever \<open>force\<close> is and
  whether the child had exited or not, and the record is gone from the registry when it
  returns; a second Stop right after it returns false and changes nothing. Stop on an
  identifier that is not in the registry (one never launched) returns false.
\<close>

theorem stop_twice:
  "(map_of (processes w) i = Some info \<longrightarrow>
      (\<exists>w1. stop i f w = Some (True, w1) \<and> map_of (processes w1) i = None \<and>
            stop i g w1 = Some (False, w1))) \<and>
   (map_of (processes w) i = None \<longrightarrow> stop i f w = Some (False, w))"
proof (intro conjI impI)
  assume tracked: "map_of (processes w) i = Some info"
  from stop_tracked [OF tracked, of f] obtain w1 where
    s: "stop i f w = Some (True, w1)" and p: "processes w1 = AList.delete i (processes w)"
    by blast
  have "map_of (processes w1) i = None"
    by (simp add: p delete_conv)
  with s show "\<exists>w1. stop i f w = Some (True, w1) \<and> map_of (processes w1) i = None \<and>
            stop i g w1 = Some (False, w1)"
    by (simp add: stop_unknown)
next
  assume "map_of (processes w) i = None"
  then show "stop i f w = Some (False, w)"
    by (rule stop_unknown)
qed

text \<open>The witness: a tracked child stopped twice, and an identifier never launched.\<close>

theorem stop_twice_witness:
  "map_of (processes tracked_world) ''a'' \<noteq> None \<and>
   (\<exists>w1. stop ''a'' False tracked_world = Some (True, w1) \<and>
         map_of (processes w1) ''a'' = None \<and> stop ''a'' True w1 = Some (False, w1)) \<and>
   map_of (processes tracked_world) ''ghost'' = None \<and>
   stop ''ghost'' False tracked_world = Some (False, tracked_world)"
  using stop_twice [of tracked_world "''a''" _ False True]
    stop_twice [of tracked_world "''ghost''" _ False]
  by (simp add: tracked_world_processes)

section \<open>Stop without force\<close>

text \<open>
  C1, as the code has it. For a tracked process that has not exited when Stop is called:
  with \<open>force = false\<close> Stop sends the termination request once, waits at most 5
  seconds, sends no kill (the request is the only signal it adds), removes the record and
  returns true; the process is gone when Stop returns exactly if it exits within those 5
  seconds, by reacting to the request or on its own. The kill after the 5 seconds and the
  unconditional wait belong to \<open>force = true\<close>: there a kill has been sent, and the
  process is gone and its record removed when Stop returns.
\<close>

theorem stop_graceful_no_escalation:
  assumes "map_of (processes w) i = Some info"
    and "poll (now w) (ptable w (process info)) = None"
  shows "(\<exists>w'. stop i False w = Some (True, w') \<and> map_of (processes w') i = None \<and>
            received (ptable w' (process info)) = received (ptable w (process info)) @ [SIGTERM] \<and>
            now w' \<le> now w + 5 \<and>
            (poll (now w') (ptable w' (process info)) = None \<longleftrightarrow>
             poll (now w + 5) (send_signal SIGTERM (now w) (ptable w (process info))) = None)) \<and>
         (\<exists>w'. stop i True w = Some (True, w') \<and> map_of (processes w') i = None \<and>
            SIGKILL \<in> set (received (ptable w' (process info))) \<and>
            poll (now w') (ptable w' (process info)) \<noteq> None)"
proof (rule conjI)
  show "\<exists>w'. stop i False w = Some (True, w') \<and> map_of (processes w') i = None \<and>
            received (ptable w' (process info)) = received (ptable w (process info)) @ [SIGTERM] \<and>
            now w' \<le> now w + 5 \<and>
            (poll (now w') (ptable w' (process info)) = None \<longleftrightarrow>
             poll (now w + 5) (send_signal SIGTERM (now w) (ptable w (process info))) = None)"
    using assms
    by (simp add: stop_defs delete_conv split: option.splits sum.splits prod.splits if_splits)
  show "\<exists>w'. stop i True w = Some (True, w') \<and> map_of (processes w') i = None \<and>
            SIGKILL \<in> set (received (ptable w' (process info))) \<and>
            poll (now w') (ptable w' (process info)) \<noteq> None"
    using assms
    by (simp add: stop_defs delete_conv split: option.splits sum.splits prod.splits if_splits)
qed

text \<open>The witness: both calls on the child that ignores the termination request.\<close>

theorem stop_graceful_no_escalation_witness:
  "map_of (processes stubborn_world) ''s'' \<noteq> None \<and>
   poll (now stubborn_world) (ptable stubborn_world 100) = None \<and>
   (\<exists>w'. stop ''s'' False stubborn_world = Some (True, w') \<and>
         received (ptable w' 100) = [SIGTERM] \<and> now w' \<le> 5 \<and>
         poll (now w') (ptable w' 100) = None) \<and>
   (\<exists>w'. stop ''s'' True stubborn_world = Some (True, w') \<and>
         map_of (processes w') ''s'' = None \<and>
         SIGKILL \<in> set (received (ptable w' 100)) \<and>
         poll (now w') (ptable w' 100) \<noteq> None)"
proof -
  let ?info = "\<lparr>process = 100,
               thread = Some \<lparr>th_process = 100, th_process_id = ''s'',
                               th_show_output = True, th_callback = (None :: nat callable option)\<rparr>,
               running = True\<rparr>"
  have a: "map_of (processes stubborn_world) ''s'' = Some ?info"
    by (simp add: stubborn_world_facts)
  have b: "poll (now stubborn_world) (ptable stubborn_world (process ?info)) = None"
    by (simp add: stubborn_world_facts poll_def)
  have c: "poll (now stubborn_world + 5)
             (send_signal SIGTERM (now stubborn_world) (ptable stubborn_world 100)) = None"
    by (simp add: stubborn_world_facts stop_defs stubborn_script_def)
  from stop_graceful_no_escalation [OF a b] a b c show ?thesis
    by (simp add: stubborn_world_facts) blast
qed

text \<open>
  C1 as the spec states it fails: the child of \<^verbatim>\<open>stubborn.py\<close> ignores the termination
  request and never exits on its own. \<^verbatim>\<open>stop("s")\<close> returns true after 5 seconds with
  the record removed, having sent the request and nothing else: the child is still running
  and nothing is pending that would end it.
\<close>

theorem stop_graceful_counterexample:
  "map_of (processes stubborn_world) ''s'' \<noteq> None \<and>
   is_running ''s'' stubborn_world \<and>
   stop ''s'' False stubborn_world = Some (True, stubborn_stopped) \<and>
   map_of (processes stubborn_stopped) ''s'' = None \<and>
   now stubborn_stopped = now stubborn_world + 5 \<and>
   received (ptable stubborn_stopped 100) = [SIGTERM] \<and>
   exit_at (ptable stubborn_stopped 100) = None \<and>
   poll (now stubborn_stopped) (ptable stubborn_stopped 100) = None"
  by (simp add: stubborn_stop stubborn_stopped_facts stubborn_world_facts is_running_def poll_def)

section \<open>The drain thread\<close>

text \<open>
  C2, as the code has it. Whatever the child does later, and also if it never exits, the
  drain thread dispatches every line the pipe holds, in order, and nothing else, and
  leaves the pipe empty; if the thread ends, these are all its effects, and it does end
  when the child exits. One line is dispatched by \<open>show_output\<close> and the truth value of
  the callback: with \<open>show_output\<close> and a truthy callback, the callback is called with
  the line and nothing is printed; with \<open>show_output\<close> and no callback, or a falsy
  one, \<^verbatim>\<open>[<process_id>]: <line>\<close> is printed; without \<open>show_output\<close>, a truthy callback
  is called and nothing happens otherwise. The line is passed without its trailing
  newline.
\<close>

theorem drain_dispatches_each_line:
  assumes "[] \<notin> set (stdout (ptable w (th_process th)))"
  shows "effects (fst (drain_pipe th w)) =
           effects w @
             concat (map (dispatch (th_show_output th) (th_callback th) (th_process_id th))
                       (stdout (ptable w (th_process th)))) \<and>
         stdout (ptable (fst (drain_pipe th w)) (th_process th)) = [] \<and>
         (\<forall>w'. read_output th w = Some w' \<longrightarrow> effects w' = effects (fst (drain_pipe th w))) \<and>
         (exit_at (ptable w (th_process th)) \<noteq> None \<longrightarrow> read_output th w \<noteq> None) \<and>
         dispatch True (Some cb) i line =
           (if truth cb then [Callback cb (rstrip_nl line)]
            else [Print (''['' @ i @ '']: '' @ rstrip_nl line)]) \<and>
         dispatch True None i line = [Print (''['' @ i @ '']: '' @ rstrip_nl line)] \<and>
         dispatch False (Some cb) i line = (if truth cb then [Callback cb (rstrip_nl line)] else []) \<and>
         dispatch False None i line = [] \<and>
         (CHR 0x0A \<notin> set s \<longrightarrow> rstrip_nl (s @ [CHR 0x0A]) = s \<and> rstrip_nl s = s)"
proof -
  note D = drain_pipe_nonempty [OF assms]
  have 1: "effects (fst (drain_pipe th w)) =
           effects w @
             concat (map (dispatch (th_show_output th) (th_callback th) (th_process_id th))
                       (stdout (ptable w (th_process th))))"
    by (simp add: D)
  have 2: "stdout (ptable (fst (drain_pipe th w)) (th_process th)) = []"
    by (simp add: D)
  have 3: "\<forall>w'. read_output th w = Some w' \<longrightarrow> effects w' = effects (fst (drain_pipe th w))"
    by (simp add: read_output_effects)
  have 4: "exit_at (ptable w (th_process th)) \<noteq> None \<longrightarrow> read_output th w \<noteq> None"
    using read_output_returns [of w th] by auto
  have 5: "dispatch True (Some cb) i line =
           (if truth cb then [Callback cb (rstrip_nl line)]
            else [Print (''['' @ i @ '']: '' @ rstrip_nl line)]) \<and>
         dispatch True None i line = [Print (''['' @ i @ '']: '' @ rstrip_nl line)] \<and>
         dispatch False (Some cb) i line = (if truth cb then [Callback cb (rstrip_nl line)] else []) \<and>
         dispatch False None i line = []"
    by (simp add: dispatch_def)
  from 1 2 3 4 5 rstrip_nl_line [of s] show ?thesis
    by blast
qed

text \<open>
  The witness: the limiter, which never exits, echoed to the console, and the three lines
  of \<^verbatim>\<open>oneshot.py\<close> drained to the truthy callable 7.
\<close>

theorem drain_dispatches_each_line_witness:
  "[] \<notin> set (stdout (ptable tracked_world 100)) \<and>
   exit_at (ptable tracked_world 100) = None \<and>
   effects (fst (drain_pipe \<lparr>th_process = 100, th_process_id = ''a'', th_show_output = True,
                            th_callback = (None :: nat callable option)\<rparr> tracked_world))
     = [Print ''[a]: limiter up'', Print ''[a]: tick''] \<and>
   [] \<notin> set (stdout (ptable oneshot_world 100)) \<and>
   effects (fst (drain_pipe \<lparr>th_process = 100, th_process_id = ''proc_100'',
                            th_show_output = False, th_callback = Some (Callable True 7)\<rparr>
                   oneshot_world))
     = [Callback (Callable True 7) ''A'', Callback (Callable True 7) ''B'',
        Callback (Callable True 7) ''C''] \<and>
   read_output \<lparr>th_process = 100, th_process_id = ''proc_100'',
                th_show_output = False, th_callback = Some (Callable True 7)\<rparr> oneshot_world
     \<noteq> None \<and>
   dispatch True (Some (Callable True (7::nat))) ''a'' (''tick'' @ [CHR 0x0A])
     = [Callback (Callable True 7) ''tick''] \<and>
   rstrip_nl (''tick'' @ [CHR 0x0A]) = ''tick''"
proof -
  let ?ta = "\<lparr>th_process = 100, th_process_id = ''a'', th_show_output = True,
              th_callback = (None :: nat callable option)\<rparr>"
  let ?to = "\<lparr>th_process = 100, th_process_id = ''proc_100'',
              th_show_output = False, th_callback = Some (Callable True (7::nat))\<rparr>"
  have a: "[] \<notin> set (stdout (ptable tracked_world (th_process ?ta)))"
    by (simp add: tracked_world_pipe)
  have b: "[] \<notin> set (stdout (ptable oneshot_world (th_process ?to)))"
    by (simp add: oneshot_world_facts)
  have c: "CHR 0x0A \<notin> set ''tick''"
    by simp
  have e: "exit_at (ptable oneshot_world 100) \<noteq> None"
    by (simp add: oneshot_world_facts)
  from drain_dispatches_each_line [OF a, of "Callable True 7" "''a''" "''tick'' @ [CHR 0x0A]" "''tick''"]
    drain_dispatches_each_line [OF b, of "Callable True 7" "''a''" "''tick'' @ [CHR 0x0A]" "''tick''"]
    a b c e
  show ?thesis
    by (simp add: oneshot_world_facts tracked_world_pipe dispatch_def rstrip_nl_def)
qed

text \<open>
  C2 as the spec states it fails for a callback that is given but falsy (a callable object
  whose \<^verbatim>\<open>__bool__\<close> answers false): with \<open>show_output\<close> the line is echoed on the
  console and the callback is not called, and without \<open>show_output\<close> nothing is done.
\<close>

theorem falsy_callback_counterexample:
  "dispatch True (Some (Callable False (7::nat))) ''a'' (''tick'' @ [CHR 0x0A])
     = [Print ''[a]: tick''] \<and>
   dispatch False (Some (Callable False (7::nat))) ''a'' (''tick'' @ [CHR 0x0A]) = []"
  by (simp add: dispatch_def rstrip_nl_def)

section \<open>The empty tag\<close>

text \<open>
  C10. Launch with the empty string as tag (of a script that exists, and one that exits
  when \<open>wait\<close> is set, so that Launch returns) does what Launch without a tag does: it
  returns \<^verbatim>\<open>proc_<pid>\<close> for the pid of the new child, which is never the empty
  string, the registry holds the new record under that identifier, and nothing is
  stored under the empty string.
\<close>

theorem empty_tag_is_no_tag:
  assumes "path_exists w s"
    and "wt \<longrightarrow> run_time (program w (command w s a)) \<noteq> None"
  shows "\<exists>w'. run s a so cb wt (Some []) w
               = Some (Inr (''proc_'' @ str_nat (pid (ptable w' (next_pid w)))), w') \<and>
              ''proc_'' @ str_nat (pid (ptable w' (next_pid w))) \<noteq> [] \<and>
              (\<exists>info. map_of (processes w') (''proc_'' @ str_nat (pid (ptable w' (next_pid w))))
                        = Some info \<and> process info = next_pid w) \<and>
              map_of (processes w') [] = map_of (processes w) [] \<and>
              run s a so cb wt (Some []) w = run s a so cb wt None w"
proof -
  from run_returns [OF assms, of so cb "Some []"] obtain w' where
    r: "run s a so cb wt (Some []) w = Some (Inr (tag_or_proc (Some []) (next_pid w)), w')"
    by blast
  note R = run_result [OF assms(1) r]
  have i: "tag_or_proc (Some []) (next_pid w) = ''proc_'' @ str_nat (pid (ptable w' (next_pid w)))"
    using R by (simp add: tag_or_proc_def)
  have e: "run s a so cb wt (Some []) w = run s a so cb wt None w"
    by (simp add: run_def tag_or_proc_def)
  from r R i e show ?thesis
    by (intro exI [of _ w']) auto
qed

text \<open>The witness: \<^verbatim>\<open>run("oneshot.py", wait=True, tag="")\<close> before any other launch.\<close>

theorem empty_tag_is_no_tag_witness:
  "path_exists fresh_world ''oneshot.py'' \<and>
   run_time (program fresh_world (command fresh_world ''oneshot.py'' None)) \<noteq> None \<and>
   (\<exists>w'. run ''oneshot.py'' None True None True (Some []) fresh_world = Some (Inr ''proc_100'', w') \<and>
         map_of (processes w') ''proc_100'' \<noteq> None \<and>
         map_of (processes w') [] = None) \<and>
   run ''oneshot.py'' None True None True (Some []) fresh_world
     = run ''oneshot.py'' None True None True None fresh_world"
proof -
  have a: "path_exists fresh_world ''oneshot.py''"
    by (simp add: fresh_world_def)
  have b': "run_time (program fresh_world (command fresh_world ''oneshot.py'' None)) \<noteq> None"
    by (simp add: fresh_world_def command_def oneshot_script_def)
  then have b: "True \<longrightarrow> run_time (program fresh_world (command fresh_world ''oneshot.py'' None)) \<noteq> None"
    by simp
  have c: "next_pid fresh_world = 100" "processes fresh_world = []"
    by (simp_all add: fresh_world_def)
  from empty_tag_is_no_tag [OF a b, of True None] obtain w' where
    r: "run ''oneshot.py'' None True None True (Some []) fresh_world
          = Some (Inr (''proc_'' @ str_nat (pid (ptable w' 100))), w')"
    and m: "\<exists>info. map_of (processes w') (''proc_'' @ str_nat (pid (ptable w' 100))) = Some info \<and> process info = 100"
    and n: "map_of (processes w') [] = None"
    and e: "run ''oneshot.py'' None True None True (Some []) fresh_world
     = run ''oneshot.py'' None True None True None fresh_world"
    unfolding c by auto
  from run_result [OF a r] have "pid (ptable w' 100) = 100"
    by (simp add: c)
  with r m n e a b' show ?thesis
    by (auto simp: str_nat_100)
qed

section \<open>A tag that is in use\<close>

text \<open>
  C6. Launch with a tag that a tracked record holds (the script exists, and exits when
  \<open>wait\<close> is set) returns the tag; the entry under the tag now holds the new child, a
  child other than the old one; the registry has the keys it had, in the order it had
  them; ListProcesses reports exactly one record under the tag, that of the new child;
  and the old child is as it was: no signal has been sent to it, nothing stopped it.
\<close>

theorem tag_collision_overwrites:
  assumes "path_exists w s" and "registry_ok w" and "t \<noteq> []"
    and "map_of (processes w) t = Some old"
    and "wt \<longrightarrow> run_time (program w (command w s a)) \<noteq> None"
  shows "\<exists>w' info. run s a so cb wt (Some t) w = Some (Inr t, w') \<and>
           map_of (processes w') t = Some info \<and>
           process info = next_pid w \<and> process info \<noteq> process old \<and>
           map fst (processes w') = map fst (processes w) \<and>
           filter (\<lambda>e. fst e = t) (list_processes w') = [(t, status_of w' info)] \<and>
           st_pid (status_of w' info) = pid (ptable w' (next_pid w)) \<and>
           ptable w' (process old) = ptable w (process old)"
proof -
  have i: "tag_or_proc (Some t) (next_pid w) = t"
    using assms(3) by (simp add: tag_or_proc_def)
  from run_returns [OF assms(1) assms(5), of so cb "Some t"] obtain w' where
    r: "run s a so cb wt (Some t) w = Some (Inr t, w')"
    by (auto simp: i)
  note R = run_result [OF assms(1) r, unfolded i]
  define info :: "'a proc_info" where "info = \<lparr>process = next_pid w,
      thread = Some \<lparr>th_process = next_pid w, th_process_id = t,
                      th_show_output = so, th_callback = cb\<rparr>, running = (\<not> wt)\<rparr>"
  have m: "map_of (processes w') t = Some info"
    using R by (simp add: info_def)
  from assms(4) have mem: "(t, old) \<in> set (processes w)"
    by (rule map_of_SomeD)
  with assms(2) have old: "process old < next_pid w"
    by (auto simp: registry_ok_def)
  from mem have "t \<in> set (map fst (processes w))"
    by force
  with R have k: "map fst (processes w') = map fst (processes w)"
    by simp
  with assms(2) have d: "distinct (map fst (processes w'))"
    by (simp add: registry_ok_def)
  have f: "filter (\<lambda>e. fst e = t) (list_processes w') = [(t, status_of w' info)]"
  proof -
    let ?xs = "map (\<lambda>e. (fst e, status_of w' (snd e))) (processes w')"
    from d have "distinct (map fst ?xs)" by (simp add: comp_def)
    moreover have "map_of ?xs t = Some (status_of w' info)"
      using m by (simp add: map_of_map [unfolded split_def] map_of_eq_Some_iff [OF d] image_iff) force
    ultimately show ?thesis
      by (simp only: list_processes_distinct [OF d] filter_key_distinct)
  qed
  from r m old k f R show ?thesis
    by (intro exI [of _ w'] exI [of _ info]) (auto simp: info_def status_of_def)
qed

text \<open>The witness: \<^verbatim>\<open>oneshot.py\<close> launched under \<^verbatim>\<open>"a"\<close> while the limiter holds \<^verbatim>\<open>"a"\<close>.\<close>

theorem tag_collision_overwrites_witness:
  "path_exists tracked_world ''oneshot.py'' \<and> registry_ok tracked_world \<and>
   map_of (processes tracked_world) ''a'' \<noteq> None \<and>
   run_time (program tracked_world (command tracked_world ''oneshot.py'' None)) \<noteq> None \<and>
   (\<exists>w' info. run ''oneshot.py'' None True None True (Some ''a'') tracked_world = Some (Inr ''a'', w') \<and>
       map_of (processes w') ''a'' = Some info \<and> process info = 101 \<and> process info \<noteq> 100 \<and>
       map fst (processes w') = [''a''] \<and>
       filter (\<lambda>e. fst e = ''a'') (list_processes w') = [(''a'', status_of w' info)] \<and>
       st_pid (status_of w' info) = pid (ptable w' 101) \<and>
       ptable w' 100 = ptable tracked_world 100)"
proof -
  let ?old = "\<lparr>process = 100,
               thread = Some \<lparr>th_process = 100, th_process_id = ''a'',
                               th_show_output = True, th_callback = (None :: nat callable option)\<rparr>,
               running = True\<rparr>"
  have a: "path_exists tracked_world ''oneshot.py''"
    by (simp add: tracked_world_facts fresh_world_def)
  have b: "''a'' \<noteq> []" by simp
  have c: "map_of (processes tracked_world) ''a'' = Some ?old"
    by (simp add: tracked_world_processes)
  have d': "run_time (program tracked_world (command tracked_world ''oneshot.py'' None)) \<noteq> None"
    by (simp add: tracked_world_facts fresh_world_def command_def oneshot_script_def)
  then have d: "True \<longrightarrow> run_time (program tracked_world (command tracked_world ''oneshot.py'' None)) \<noteq> None"
    by simp
  from tag_collision_overwrites [OF a registry_ok_tracked b c d, of True None]
    a registry_ok_tracked c d'
  show ?thesis
    by (simp add: tracked_world_facts tracked_world_processes)
qed

section \<open>StopAll and launches during its loop\<close>




section \<open>The geometry of the overlay window\<close>

text \<open>
  C7. For an image of width \<open>W\<close> and height \<open>H\<close> on a screen of width \<open>S\<close>, the string
  handed to the window manager is \<^verbatim>\<open>WxH+X+0\<close> with \<open>X = S - W - 20\<close>, and, the pixel
  dimensions of an image not being negative, the window manager reads it as a window of
  width \<open>W\<close> and height \<open>H\<close> whose x-origin is \<open>S - W - 20\<close> (also when that is
  negative) and whose y-origin is 0.
\<close>

theorem overlay_geometry:
  "geometry S W H = str_int W @ ''x'' @ str_int H @ ''+'' @ str_int (S - W - 20) @ ''+0'' \<and>
   (0 \<le> W \<and> 0 \<le> H \<longrightarrow>
      wm_geometry (geometry S W H)
        = Some \<lparr>win_width = W, win_height = H, x_origin = S - W - 20, y_origin = 0\<rparr>)"
proof (intro conjI impI)
  show g: "geometry S W H = str_int W @ ''x'' @ str_int H @ ''+'' @ str_int (S - W - 20) @ ''+0''"
    by (simp add: geometry_def right_offset_def Let_def str_int_def str_nat_0)
  assume pos: "0 \<le> W \<and> 0 \<le> H"
  from pos have sW: "str_int W = str_nat (nat W)"
    by (simp add: str_int_def)
  from pos have sH: "str_int H = str_nat (nat H)"
    by (simp add: str_int_def)
  from pos have n: "int (nat W) = W" "int (nat H) = H"
    by simp_all
  have 1: "read_nat (str_nat (nat W) @ CHR ''x'' # t) = Some (nat W, CHR ''x'' # t)" for t
    by (simp add: read_nat_str_nat minus_no_digit)
  have 2: "read_nat (str_nat (nat H) @ CHR ''+'' # t) = Some (nat H, CHR ''+'' # t)" for t
    by (simp add: read_nat_str_nat minus_no_digit)
  have 3: "read_int (str_int (S - W - 20) @ CHR ''+'' # t) = Some (S - W - 20, CHR ''+'' # t)" for t
    by (simp add: read_int_str_int minus_no_digit)
  have 4: "read_int ''0'' = Some (0, [])"
    using read_int_str_int(2) [of 0] by (simp add: str_int_def str_nat_0)
  show "wm_geometry (geometry S W H)
        = Some \<lparr>win_width = W, win_height = H, x_origin = S - W - 20, y_origin = 0\<rparr>"
    using pos by (simp add: g sW sH wm_geometry_def 1 2 3 4)
qed

text \<open>
  The witness: the example of the spec, a 200 by 300 image on a screen 1920 wide, and the
  same image on a screen only 100 wide.
\<close>

theorem overlay_geometry_witness:
  "(0::int) \<le> 200 \<and> (0::int) \<le> 300 \<and>
   geometry 1920 200 300 = ''200x300+1700+0'' \<and>
   wm_geometry (geometry 1920 200 300)
     = Some \<lparr>win_width = 200, win_height = 300, x_origin = 1700, y_origin = 0\<rparr> \<and>
   geometry 100 200 300 = ''200x300+-120+0'' \<and>
   wm_geometry (geometry 100 200 300)
     = Some \<lparr>win_width = 200, win_height = 300, x_origin = - 120, y_origin = 0\<rparr>"
proof -
  have a: "(0::int) \<le> 200 \<and> (0::int) \<le> 300"
    by simp
  have b: "str_int 200 = ''200''" "str_int 300 = ''300''" "str_int 1700 = ''1700''"
    "str_int (- 120) = ''-120''"
    by (simp_all add: str_int_def str_nat.simps)
  note T = overlay_geometry [of 1920 200 300]
  note U = overlay_geometry [of 100 200 300]
  from T have 1: "geometry 1920 200 300 = ''200x300+1700+0''"
    by (simp add: b)
  from T [THEN conjunct2, THEN mp, OF a]
  have 2: "wm_geometry (geometry 1920 200 300)
     = Some \<lparr>win_width = 200, win_height = 300, x_origin = 1700, y_origin = 0\<rparr>"
    by simp
  from U have 3: "geometry 100 200 300 = ''200x300+-120+0''"
    by (simp add: b)
  from U [THEN conjunct2, THEN mp, OF a]
  have 4: "wm_geometry (geometry 100 200 300)
     = Some \<lparr>win_width = 200, win_height = 300, x_origin = - 120, y_origin = 0\<rparr>"
    by simp
  from a 1 2 3 4 show ?thesis
    by (intro conjI) simp_all
qed

end
